theory Spec2Isabelle
  imports Main
begin

section \<open>Python string and container primitives used by mecat/register.py\<close>

text \<open>
  Strings are byte strings (Python 2 \<open>str\<close>), modelled as \<open>string\<close>. Every raise of
  the source is a value of \<open>error\<close>; a fallible function returns \<open>error + 'a\<close>.
\<close>

datatype error = KeyError | IndexError | ValueError | AttributeError

text \<open>\<open>s.startswith(p)\<close>.\<close>

definition startswith :: "string \<Rightarrow> string \<Rightarrow> bool" where
  "startswith s p = (take (length p) s = p)"

text \<open>\<open>line.rstrip('\n')\<close>: every trailing line feed is removed.\<close>

definition rstrip_nl :: "string \<Rightarrow> string" where
  "rstrip_nl s = rev (dropWhile (\<lambda>c. c = CHR 0x0A) (rev s))"

text \<open>
  \<open>s.partition(sep)\<close>, as an option: the text before and after the first (leftmost)
  occurrence of \<open>sep\<close> in \<open>s\<close>, or \<open>None\<close> when \<open>sep\<close> does not occur.
\<close>

fun find_sep :: "string \<Rightarrow> string \<Rightarrow> (string \<times> string) option" where
  "find_sep sep [] = (if sep = [] then Some ([], []) else None)"
| "find_sep sep (c # cs) =
     (if startswith (c # cs) sep then Some ([], drop (length sep) (c # cs))
      else (case find_sep sep cs of
              None \<Rightarrow> None
            | Some (a, b) \<Rightarrow> Some (c # a, b)))"

lemma find_sep_shorter:
  "find_sep sep s = Some (a, b) \<Longrightarrow> sep \<noteq> [] \<Longrightarrow> length b < length s"
proof (induction s arbitrary: a)
  case Nil
  then show ?case by simp
next
  case (Cons c cs)
  show ?case
  proof (cases "startswith (c # cs) sep")
    case True
    with Cons.prems show ?thesis by auto
  next
    case False
    with Cons.prems obtain a' where "find_sep sep cs = Some (a', b)"
      by (auto split: option.splits)
    from Cons.IH [OF this Cons.prems(2)] show ?thesis by simp
  qed
qed

text \<open>
  \<open>s.split(sep)\<close> for a non-empty separator: split at every occurrence, scanning from
  the left, occurrences not overlapping. Python raises ValueError for an empty
  separator; every call of the source passes a non-empty literal, and the model
  returns \<open>[s]\<close> there.
\<close>

function str_split :: "string \<Rightarrow> string \<Rightarrow> string list" where
  "str_split sep s =
     (if sep = [] then [s]
      else (case find_sep sep s of
              None \<Rightarrow> [s]
            | Some (a, b) \<Rightarrow> a # str_split sep b))"
  by pat_completeness auto
termination
  by (relation "measure (\<lambda>(sep, s). length s)") (auto dest: find_sep_shorter)

declare str_split.simps [simp del]

text \<open>
  \<open>s.replace(old, new)\<close>: every occurrence of \<open>old\<close>, scanning from the left, is replaced.
  For an empty \<open>old\<close> Python inserts \<open>new\<close> before every character and at the end.
\<close>

function str_replace :: "string \<Rightarrow> string \<Rightarrow> string \<Rightarrow> string" where
  "str_replace old new s =
     (if old = [] then new @ concat (map (\<lambda>c. c # new) s)
      else (case find_sep old s of
              None \<Rightarrow> s
            | Some (a, b) \<Rightarrow> a @ new @ str_replace old new b))"
  by pat_completeness auto
termination
  by (relation "measure (\<lambda>(old, new, s). length s)") (auto dest: find_sep_shorter)

declare str_replace.simps [simp del]

text \<open>
  The subscript \<open>xs[i]\<close>: an index from \<open>-len(xs)\<close> to \<open>-1\<close> counts back from the end,
  and any index outside \<open>-len(xs) .. len(xs) - 1\<close> raises IndexError.
\<close>

definition list_get :: "'a list \<Rightarrow> int \<Rightarrow> error + 'a" where
  "list_get xs i =
     (if 0 \<le> i \<and> i < int (length xs) then Inr (xs ! nat i)
      else if i < 0 \<and> - i \<le> int (length xs) then Inr (xs ! nat (int (length xs) + i))
      else Inl IndexError)"

text \<open>
  \<open>os.path.basename(p)\<close> (posixpath): the text after the last \<open>/\<close>, the whole of \<open>p\<close>
  when there is none.
\<close>

definition basename :: "string \<Rightarrow> string" where
  "basename p = rev (takeWhile (\<lambda>c. c \<noteq> CHR ''/'') (rev p))"

text \<open>
  A Python dict with string keys, as an association list with distinct keys in
  insertion order: \<open>map_of d k\<close> is \<open>d[k]\<close> (\<open>None\<close> for KeyError), \<open>dict_set d k v\<close> is
  \<open>d[k] = v\<close>.
\<close>

fun dict_set :: "('k \<times> 'v) list \<Rightarrow> 'k \<Rightarrow> 'v \<Rightarrow> ('k \<times> 'v) list" where
  "dict_set [] k v = [(k, v)]"
| "dict_set ((k', v') # d) k v =
     (if k' = k then (k, v) # d else (k', v') # dict_set d k v)"

section \<open>The Datafile class\<close>

text \<open>
  \<open>self.size\<close> is the integer 0 at construction and a string once a \<open>File Size\<close> line
  has been stored.
\<close>

datatype pyval = PyInt int | PyStr string

record Datafile =
  df_name :: string
  df_data :: "(string \<times> string list) list"
  df_size :: pyval

definition Datafile_init :: "string \<Rightarrow> Datafile" where
  "Datafile_init name = \<lparr>df_name = name, df_data = [], df_size = PyInt 0\<rparr>"

text \<open>\<open>Datafile.__setitem__\<close>.\<close>

definition setitem :: "Datafile \<Rightarrow> string \<Rightarrow> string \<Rightarrow> Datafile" where
  "setitem df key val =
     (if key = ''File Size'' then df\<lparr>df_size := PyStr (str_replace '' bytes'' '''' val)\<rparr>
      else
        (let key' = str_replace ''/'' '''' (str_replace '' '' '''' key)
         in (case map_of (df_data df) key' of
               Some vs \<Rightarrow> df\<lparr>df_data := dict_set (df_data df) key' (vs @ [val])\<rparr>
             | None \<Rightarrow> df\<lparr>df_data := dict_set (df_data df) key' [val]\<rparr>)))"

definition getSize :: "Datafile \<Rightarrow> pyval" where
  "getSize df = df_size df"

definition hasMetadata :: "Datafile \<Rightarrow> bool" where
  "hasMetadata df = (length (df_data df) > 0)"

text \<open>\<open>Datafile.getBeamline\<close>: \<open>self.name.split('/')[0]\<close>.\<close>

definition getBeamline :: "Datafile \<Rightarrow> error + string" where
  "getBeamline df = list_get (str_split ''/'' (df_name df)) 0"

section \<open>The beamline configuration table\<close>

text \<open>
  A compiled pattern is used only through \<open>pattern.match(basename) is not None\<close>, so a
  pattern is the predicate that decides it. \<open>groupDSRules\<close> is a list whose head names
  the rule and whose second element is the rule's parameter: a tagged value.
\<close>

datatype group_rule = GroupFile string | GroupDirectory int | GroupSample | GroupOther

record beamline_config =
  dfSchema :: string
  filetypes :: "string \<Rightarrow> bool"
  groupDSRules :: group_rule
  cfg_metadata :: "(string \<Rightarrow> bool) option"
  beamline_group :: string

type_synonym config_table = "(string \<times> beamline_config) list"

definition ascii_lower :: "char \<Rightarrow> char" where
  "ascii_lower c =
     (let n = (of_char c :: nat) in if 65 \<le> n \<and> n \<le> 90 then char_of (n + 32) else c)"

text \<open>
  \<open>re.compile('.*LIT$', re.IGNORECASE).match(s)\<close> for a literal \<open>LIT\<close>: \<open>.*\<close> takes
  characters other than the line feed, the literal is compared ignoring ASCII case, and
  \<open>$\<close> holds at the end of \<open>s\<close> or just before a line feed that ends \<open>s\<close>.
\<close>

definition re_dotstar_lit_eol :: "string \<Rightarrow> string \<Rightarrow> bool" where
  "re_dotstar_lit_eol lit s =
     list_ex
       (\<lambda>t. length lit \<le> length t
          \<and> map ascii_lower (drop (length t - length lit) t) = map ascii_lower lit
          \<and> CHR 0x0A \<notin> set (take (length t - length lit) t))
       (if s \<noteq> [] \<and> last s = CHR 0x0A then [s, butlast s] else [s])"

text \<open>\<open>re.compile('.*\.(pdf)$|.*\.(hdf)$', re.IGNORECASE)\<close>.\<close>

definition filetypes_re :: "string \<Rightarrow> bool" where
  "filetypes_re s = (re_dotstar_lit_eol ''.pdf'' s \<or> re_dotstar_lit_eol ''.hdf'' s)"

definition config :: config_table where
  "config =
     [(''Echidna'',
        \<lparr>dfSchema = ''http://www.tardis.edu.au/schemas/ansto/ech/2011/06/21'',
         filetypes = filetypes_re, groupDSRules = GroupSample, cfg_metadata = None,
         beamline_group = ''BEAMLINE_ECH''\<rparr>),
      (''Kowari'',
        \<lparr>dfSchema = ''http://www.tardis.edu.au/schemas/ansto/kwr/2011/06/21'',
         filetypes = filetypes_re, groupDSRules = GroupSample, cfg_metadata = None,
         beamline_group = ''BEAMLINE_KWR''\<rparr>),
      (''Platypus'',
        \<lparr>dfSchema = ''http://www.tardis.edu.au/schemas/ansto/plp/2011/06/21'',
         filetypes = filetypes_re, groupDSRules = GroupSample, cfg_metadata = None,
         beamline_group = ''BEAMLINE_PLP''\<rparr>),
      (''Quokka'',
        \<lparr>dfSchema = ''http://www.tardis.edu.au/schemas/ansto/qkk/2011/06/21'',
         filetypes = filetypes_re, groupDSRules = GroupSample, cfg_metadata = None,
         beamline_group = ''BEAMLINE_QKK''\<rparr>),
      (''Wombat'',
        \<lparr>dfSchema = ''http://www.tardis.edu.au/schemas/ansto/wbt/2011/06/21'',
         filetypes = filetypes_re, groupDSRules = GroupSample, cfg_metadata = None,
         beamline_group = ''BEAMLINE_WBT''\<rparr>)]"

section \<open>_acceptFile, _isDatasetMetadata, _getDatasetName\<close>

text \<open>The functions read the module's table; the model takes the table as \<open>cfg\<close>.\<close>

definition acceptFile :: "config_table \<Rightarrow> string \<Rightarrow> string \<Rightarrow> error + bool" where
  "acceptFile cfg name beamline =
     (case map_of cfg beamline of
        None \<Rightarrow> Inl KeyError
      | Some c \<Rightarrow> Inr (filetypes c (basename name)))"

definition isDatasetMetadata :: "config_table \<Rightarrow> Datafile \<Rightarrow> string \<Rightarrow> error + bool" where
  "isDatasetMetadata cfg df beamline =
     (case map_of cfg beamline of
        None \<Rightarrow> Inl KeyError
      | Some c \<Rightarrow>
          (case cfg_metadata c of
             None \<Rightarrow> Inr False
           | Some pattern \<Rightarrow> Inr (pattern (basename (df_name df)))))"

text \<open>
  \<open>s.rsplit(sep, 1)[0]\<close>: the text before the last occurrence of \<open>sep\<close>, the whole of
  \<open>s\<close> when there is none.
\<close>

definition rsplit1_head :: "string \<Rightarrow> string \<Rightarrow> string" where
  "rsplit1_head sep s =
     (case find_sep (rev sep) (rev s) of None \<Rightarrow> s | Some (a, b) \<Rightarrow> rev b)"

text \<open>
  In the \<open>sample\<close> branch only the KeyError of \<open>df['sample_name']\<close> is caught; an
  IndexError, there or in the handler, leaves the function.
\<close>

definition getDatasetName :: "config_table \<Rightarrow> Datafile \<Rightarrow> string \<Rightarrow> error + string" where
  "getDatasetName cfg df beamline =
     (case map_of cfg beamline of
        None \<Rightarrow> Inl KeyError
      | Some c \<Rightarrow>
          (case groupDSRules c of
             GroupFile sep \<Rightarrow>
               (if sep = [] then Inl ValueError else Inr (rsplit1_head sep (df_name df)))
           | GroupDirectory item \<Rightarrow> list_get (str_split ''/'' (df_name df)) item
           | GroupSample \<Rightarrow>
               (case map_of (df_data df) ''sample_name'' of
                  Some vs \<Rightarrow> list_get vs 0
                | None \<Rightarrow>
                    (case list_get (str_split ''/'' (df_name df)) 1 of
                       Inl e \<Rightarrow> Inl e
                     | Inr name \<Rightarrow>
                         Inr (if startswith name ''LogBook'' then ''Log Books'' else name)))
           | GroupOther \<Rightarrow> Inr (df_name df)))"

section \<open>_parse_metaman, part I: the loop over the lines of the MetaMan file\<close>

text \<open>
  \<open>ps_files\<close> is the list \<open>files\<close> of Datafile objects; \<open>ps_df\<close> is the variable
  \<open>df\<close>, the current object as a reference into \<open>files\<close> (its index) or \<open>None\<close>. \<open>df[key] = value\<close> mutates the object in the list.
\<close>

record parse_state =
  ps_files :: "Datafile list"
  ps_df :: "nat option"

definition parse_init :: parse_state where
  "parse_init = \<lparr>ps_files = [], ps_df = None\<rparr>"

text \<open>
  One iteration of \<open>for line in metaman\<close>. \<open>is_marker\<close> is the test
  \<open>line[0:3] == '<b>' and line[-5:] == '</b>:'\<close> and \<open>marker_path\<close> the slice
  \<open>line[4:-5]\<close>, with Python's slices: \<open>line[-5:]\<close> is the whole line when it has
  fewer than five characters, and \<open>line[4:-5]\<close> is empty when the bounds cross.
\<close>

definition is_marker :: "string \<Rightarrow> bool" where
  "is_marker line = (take 3 line = ''<b>'' \<and> drop (length line - 5) line = ''</b>:'')"

definition marker_path :: "string \<Rightarrow> string" where
  "marker_path line = drop 4 (take (length line - 5) line)"

definition parse_line ::
  "config_table \<Rightarrow> string list \<Rightarrow> parse_state \<Rightarrow> string \<Rightarrow> error + parse_state" where
  "parse_line cfg beamlines st raw =
     (let line = rstrip_nl raw in
      if is_marker line then
        (let path = marker_path line in
         case list_get (str_split ''/'' path) 0 of
           Inl e \<Rightarrow> Inl e
         | Inr beamline \<Rightarrow>
             if beamline \<notin> set beamlines then Inr st
             else (case acceptFile cfg path beamline of
                     Inl e \<Rightarrow> Inl e
                   | Inr True \<Rightarrow>
                       Inr (st\<lparr>ps_files := ps_files st @ [Datafile_init path],
                               ps_df := Some (length (ps_files st))\<rparr>)
                   | Inr False \<Rightarrow> Inr st))
      else if line = [] then Inr (st\<lparr>ps_df := None\<rparr>)
      else (case ps_df st of
              None \<Rightarrow> Inr st
            | Some i \<Rightarrow>
                (case find_sep '' : '' line of
                   None \<Rightarrow> Inr st
                 | Some (key, val) \<Rightarrow>
                     Inr (st\<lparr>ps_files :=
                            (ps_files st)[i := setitem (ps_files st ! i) key val]\<rparr>))))"

fun parse_lines ::
  "config_table \<Rightarrow> string list \<Rightarrow> parse_state \<Rightarrow> string list \<Rightarrow> error + parse_state" where
  "parse_lines cfg beamlines st [] = Inr st"
| "parse_lines cfg beamlines st (l # ls) =
     (case parse_line cfg beamlines st l of
        Inl e \<Rightarrow> Inl e
      | Inr st' \<Rightarrow> parse_lines cfg beamlines st' ls)"

section \<open>_parse_metaman, part II: building datasets from files\<close>

record DatasetMetadata =
  dm_data :: "(string \<times> string list) list"

text \<open>\<open>metadata[dsName]\<close> holds a DatasetMetadata object or a Datafile object.\<close>

datatype metadata_value = IsDatasetMetadata DatasetMetadata | IsDatafile Datafile

record group_state =
  gs_datasets :: "(string \<times> Datafile list) list"
  gs_metadata :: "(string \<times> metadata_value) list"

definition group_init :: group_state where
  "group_init = \<lparr>gs_datasets = [], gs_metadata = []\<rparr>"

text \<open>One iteration of \<open>for df in files\<close>.\<close>

definition group_file :: "config_table \<Rightarrow> group_state \<Rightarrow> Datafile \<Rightarrow> error + group_state" where
  "group_file cfg gs d =
     (if \<not> hasMetadata d then Inr gs
      else
        (case getBeamline d of
           Inl e \<Rightarrow> Inl e
         | Inr beamline \<Rightarrow>
             (case getDatasetName cfg d beamline of
                Inl e \<Rightarrow> Inl e
              | Inr dsName \<Rightarrow>
                  (let md = dict_set (gs_metadata gs) dsName
                              (IsDatasetMetadata \<lparr>dm_data = [(''sample_name'', [dsName])]\<rparr>)
                   in (case isDatasetMetadata cfg d beamline of
                         Inl e \<Rightarrow> Inl e
                       | Inr False \<Rightarrow>
                           Inr \<lparr>gs_datasets =
                                  (case map_of (gs_datasets gs) dsName of
                                     None \<Rightarrow> dict_set (gs_datasets gs) dsName [d]
                                   | Some ds \<Rightarrow> dict_set (gs_datasets gs) dsName (ds @ [d])),
                                gs_metadata = md\<rparr>
                       | Inr True \<Rightarrow>
                           Inr \<lparr>gs_datasets = gs_datasets gs,
                                gs_metadata = dict_set md dsName (IsDatafile d)\<rparr>)))))"

fun group_files :: "config_table \<Rightarrow> group_state \<Rightarrow> Datafile list \<Rightarrow> error + group_state" where
  "group_files cfg gs [] = Inr gs"
| "group_files cfg gs (d # ds) =
     (case group_file cfg gs d of
        Inl e \<Rightarrow> Inl e
      | Inr gs' \<Rightarrow> group_files cfg gs' ds)"

section \<open>_parse_metaman: the sample sheet\<close>

definition sampleSchema :: string where
  "sampleSchema = ''http://www.tardis.edu.au/schemas/ansto/sample/2011/06/21''"

definition chemicalSchema :: string where
  "chemicalSchema = ''http://www.tardis.edu.au/schemas/ansto/chemical/2011/06/21''"

text \<open>
  An ExperimentParameterSet row with the ExperimentParameter rows saved into it, as
  (parameter name, string value) in the order of saving. The parameter-name table of
  the database is the parameter \<open>catalog\<close>: \<open>catalog schema key\<close> is the name of the
  ParameterName row that \<open>objects.get(schema=schema, name__iexact=key)\<close> returns, or
  \<open>None\<close> for DoesNotExist.
\<close>

record ExperimentParameterSet =
  eps_schema :: string
  eps_parameters :: "(string \<times> string) list"

type_synonym catalog = "string \<Rightarrow> string \<Rightarrow> string option"

text \<open>
  \<open>ss_sets\<close> are the parameter sets saved so far, in order; \<open>sample_ps\<close> and
  \<open>chemical_ps\<close> are references to one of them, or \<open>None\<close>.
\<close>

record sample_state =
  ss_sets :: "ExperimentParameterSet list"
  sample_ps :: "nat option"
  chemical_ps :: "nat option"

definition sample_init :: sample_state where
  "sample_init = \<lparr>ss_sets = [], sample_ps = None, chemical_ps = None\<rparr>"

text \<open>
  One iteration of \<open>for line in sample\<close>. \<open>key, value = line.split(' : ')\<close> raises
  ValueError unless the split has exactly two parts.
\<close>

definition sample_line :: "catalog \<Rightarrow> sample_state \<Rightarrow> string \<Rightarrow> error + sample_state" where
  "sample_line cat st raw =
     (let line = rstrip_nl raw in
      if line = [] then Inr st
      else
        (case str_split '' : '' line of
           [key, val] \<Rightarrow>
             (let st1 =
                (if key = ''SampleDescription'' \<or> sample_ps st = None then
                   st\<lparr>ss_sets := ss_sets st @ [\<lparr>eps_schema = sampleSchema, eps_parameters = []\<rparr>],
                      sample_ps := Some (length (ss_sets st)),
                      chemical_ps := None\<rparr>
                 else if key = ''ChemicalName'' then
                   st\<lparr>ss_sets := ss_sets st @ [\<lparr>eps_schema = chemicalSchema, eps_parameters = []\<rparr>],
                      chemical_ps := Some (length (ss_sets st))\<rparr>
                 else st)
              in if val = [] then Inr st1
                 else
                   (case (case chemical_ps st1 of Some i \<Rightarrow> Some i | None \<Rightarrow> sample_ps st1) of
                      None \<Rightarrow> Inl AttributeError
                    | Some i \<Rightarrow>
                        (let paramset = ss_sets st1 ! i in
                         case cat (eps_schema paramset) key of
                           None \<Rightarrow> Inr st1
                         | Some param_name \<Rightarrow>
                             Inr (st1\<lparr>ss_sets := (ss_sets st1)
                                    [i := paramset\<lparr>eps_parameters :=
                                            eps_parameters paramset @ [(param_name, val)]\<rparr>]\<rparr>))))
         | _ \<Rightarrow> Inl ValueError))"

fun sample_lines :: "catalog \<Rightarrow> sample_state \<Rightarrow> string list \<Rightarrow> error + sample_state" where
  "sample_lines cat st [] = Inr st"
| "sample_lines cat st (l # ls) =
     (case sample_line cat st l of
        Inl e \<Rightarrow> Inl e
      | Inr st' \<Rightarrow> sample_lines cat st' ls)"

section \<open>_parse_metaman as a whole\<close>

text \<open>
  Iterating over an uploaded file yields its lines, each with its line feed; the last
  line may lack one.
\<close>

fun file_lines :: "string \<Rightarrow> string list" where
  "file_lines [] = []"
| "file_lines (c # cs) =
     (if c = CHR 0x0A then [c] # file_lines cs
      else (case file_lines cs of
              [] \<Rightarrow> [[c]]
            | l # ls \<Rightarrow> (c # l) # ls))"

text \<open>
  The structured model that parts I and II and the sample loop hand to the database
  layer: the sample and chemical parameter sets, the parsed files, and the two
  dictionaries of part II.
\<close>

record ingest_model =
  im_samples :: "ExperimentParameterSet list"
  im_files :: "Datafile list"
  im_datasets :: "(string \<times> Datafile list) list"
  im_metadata :: "(string \<times> metadata_value) list"

text \<open>
  \<open>beamline\<close> is \<open>cleaned_data['beamline']\<close>, \<open>sample\<close> the optional upload
  \<open>request.FILES['sample']\<close>, \<open>metaman\<close> the upload \<open>request.FILES['metaman']\<close>. The
  result is \<open>None\<close> where the source returns \<open>None\<close> (no beamline of the request is in
  the table).
\<close>

definition parse_metaman ::
  "config_table \<Rightarrow> catalog \<Rightarrow> string \<Rightarrow> string option \<Rightarrow> string \<Rightarrow> error + ingest_model option" where
  "parse_metaman cfg cat beamline sample metaman =
     (let beamlines_unfiltered = str_split '', '' beamline;
          beamlines = filter (\<lambda>b. b \<in> set (map fst cfg)) beamlines_unfiltered
      in if beamlines = [] then Inr None
         else
           (case (case sample of
                    None \<Rightarrow> Inr sample_init
                  | Some s \<Rightarrow> sample_lines cat sample_init (file_lines s)) of
              Inl e \<Rightarrow> Inl e
            | Inr ss \<Rightarrow>
                (case parse_lines cfg beamlines parse_init (file_lines metaman) of
                   Inl e \<Rightarrow> Inl e
                 | Inr st \<Rightarrow>
                     (case group_files cfg group_init (ps_files st) of
                        Inl e \<Rightarrow> Inl e
                      | Inr gs \<Rightarrow>
                          Inr (Some \<lparr>im_samples = ss_sets ss, im_files = ps_files st,
                                     im_datasets = gs_datasets gs,
                                     im_metadata = gs_metadata gs\<rparr>)))))"

section \<open>Notions used to state the properties\<close>

text \<open>The string \<open>s\<close> without its suffix \<open>suf\<close>, when it ends with \<open>suf\<close>.\<close>

definition strip_suffix :: "string \<Rightarrow> string \<Rightarrow> string" where
  "strip_suffix suf s =
     (if length suf \<le> length s \<and> drop (length s - length suf) s = suf
      then take (length s - length suf) s else s)"

text \<open>
  A block of MetaMan output for the file \<open>path\<close>: the marker line, written as MetaMan
  writes it with a \<open>/\<close> before the path, the metadata lines, and the blank line that
  ends the block; every line ends with a line feed.
\<close>

definition block_lines :: "string \<times> string list \<Rightarrow> string list" where
  "block_lines blk =
     (''<b>/'' @ fst blk @ ''</b>:'' @ [CHR 0x0A])
       # map (\<lambda>l. l @ [CHR 0x0A]) (snd blk) @ [[CHR 0x0A]]"

text \<open>
  A \<open>key : value\<close> line (without its line feed): it contains the separator and is not
  framed as a marker. \<open>line_key\<close> and \<open>line_value\<close> are the text before and after its
  first separator.
\<close>

definition kv_line :: "string \<Rightarrow> bool" where
  "kv_line l = (\<not> is_marker l \<and> find_sep '' : '' l \<noteq> None \<and> last l \<noteq> CHR 0x0A)"

definition line_key :: "string \<Rightarrow> string" where
  "line_key l = (case find_sep '' : '' l of Some (k, v) \<Rightarrow> k | None \<Rightarrow> l)"

definition line_value :: "string \<Rightarrow> string" where
  "line_value l = (case find_sep '' : '' l of Some (k, v) \<Rightarrow> v | None \<Rightarrow> [])"

text \<open>A key with every space and every \<open>/\<close> removed.\<close>

definition norm_key :: "string \<Rightarrow> string" where
  "norm_key k = filter (\<lambda>c. c \<noteq> CHR '' '' \<and> c \<noteq> CHR ''/'') k"

text \<open>
  The values, in line order, of the lines whose key is not \<open>File Size\<close> and has the
  normal form \<open>k\<close>.
\<close>

definition values_of :: "string \<Rightarrow> string list \<Rightarrow> string list" where
  "values_of k ls =
     map line_value (filter (\<lambda>l. line_key l \<noteq> ''File Size'' \<and> norm_key (line_key l) = k) ls)"

text \<open>
  Storing a \<open>key : value\<close> line into a record, and the record that a block describes:
  a new Datafile for the path with the lines of the block stored in order.
\<close>

definition store_line :: "Datafile \<Rightarrow> string \<Rightarrow> Datafile" where
  "store_line d l = setitem d (line_key l) (line_value l)"

definition build :: "string \<times> string list \<Rightarrow> Datafile" where
  "build blk = foldl store_line (Datafile_init (fst blk)) (snd blk)"

text \<open>
  A path is accepted when its first segment is a selected beamline and \<open>_acceptFile\<close>
  returns True for it, and rejected when the first segment is not selected or
  \<open>_acceptFile\<close> returns False.
\<close>

definition accepted :: "config_table \<Rightarrow> string list \<Rightarrow> string \<Rightarrow> bool" where
  "accepted cfg beamlines path =
     (case list_get (str_split ''/'' path) 0 of
        Inl e \<Rightarrow> False
      | Inr b \<Rightarrow> b \<in> set beamlines \<and> acceptFile cfg path b = Inr True)"

definition rejected :: "config_table \<Rightarrow> string list \<Rightarrow> string \<Rightarrow> bool" where
  "rejected cfg beamlines path =
     (case list_get (str_split ''/'' path) 0 of
        Inl e \<Rightarrow> False
      | Inr b \<Rightarrow> b \<notin> set beamlines \<or> acceptFile cfg path b = Inr False)"




section \<open>Facts about the string primitives\<close>

lemma find_sep_Some_eq: "find_sep sep s = Some (a, b) \<Longrightarrow> s = a @ sep @ b"
proof (induction s arbitrary: a)
  case Nil
  then show ?case by (simp split: if_splits)
next
  case (Cons c cs)
  show ?case
  proof (cases "startswith (c # cs) sep")
    case True
    with Cons.prems have "a = []" "b = drop (length sep) (c # cs)" by auto
    moreover from True have "c # cs = sep @ drop (length sep) (c # cs)"
      unfolding startswith_def by (metis append_take_drop_id)
    ultimately show ?thesis by simp
  next
    case False
    with Cons.prems obtain a' where a': "find_sep sep cs = Some (a', b)" "a = c # a'"
      by (auto split: option.splits)
    from Cons.IH [OF a'(1)] a'(2) show ?thesis by simp
  qed
qed

lemma find_sep_leftmost:
  "s = a @ sep @ b \<Longrightarrow> \<exists>a' b'. find_sep sep s = Some (a', b') \<and> length a' \<le> length a"
proof (induction s arbitrary: a)
  case Nil
  then show ?case by simp
next
  case (Cons c cs)
  show ?case
  proof (cases "startswith (c # cs) sep")
    case True
    then show ?thesis by simp
  next
    case False
    have "a \<noteq> []"
    proof
      assume "a = []"
      with Cons.prems have "c # cs = sep @ b" by simp
      then have "startswith (c # cs) sep" by (simp add: startswith_def)
      with False show False by simp
    qed
    then obtain a0 where a0: "a = c # a0" "cs = a0 @ sep @ b"
      using Cons.prems by (cases a) auto
    from Cons.IH [OF a0(2)] obtain a' b' where
      "find_sep sep cs = Some (a', b')" "length a' \<le> length a0" by blast
    with False a0 show ?thesis by simp
  qed
qed

lemma find_sep_None_iff: "find_sep sep s = None \<longleftrightarrow> (\<nexists>a b. s = a @ sep @ b)"
proof
  assume "find_sep sep s = None"
  then show "\<nexists>a b. s = a @ sep @ b"
    using find_sep_leftmost [of s _ sep] by fastforce
next
  assume "\<nexists>a b. s = a @ sep @ b"
  then show "find_sep sep s = None"
    using find_sep_Some_eq [of sep s] by (cases "find_sep sep s") auto
qed

lemma find_sep_char_None: "find_sep [c] s = None \<longleftrightarrow> c \<notin> set s"
  by (induction s) (auto simp: startswith_def split: option.splits)

lemma str_split_None: "find_sep sep s = None \<Longrightarrow> str_split sep s = [s]"
  by (simp add: str_split.simps)

lemma str_split_Some:
  "sep \<noteq> [] \<Longrightarrow> find_sep sep s = Some (a, b) \<Longrightarrow> str_split sep s = a # str_split sep b"
  by (simp add: str_split.simps)

lemma str_split_not_Nil: "str_split sep s \<noteq> []"
  by (subst str_split.simps) (simp split: option.splits)

lemma str_replace_char_filter: "str_replace [c] [] s = filter (\<lambda>x. x \<noteq> c) s"
proof (induction s)
  case Nil
  then show ?case by (simp add: str_replace.simps)
next
  case (Cons x xs)
  show ?case
  proof (cases "x = c")
    case True
    then have "str_replace [c] [] (x # xs) = str_replace [c] [] xs"
      by (subst str_replace.simps) (simp add: startswith_def)
    with True Cons.IH show ?thesis by simp
  next
    case False
    then have "str_replace [c] [] (x # xs) = x # str_replace [c] [] xs"
      by (subst str_replace.simps, subst (2) str_replace.simps)
         (simp add: startswith_def split: option.splits)
    with False Cons.IH show ?thesis by simp
  qed
qed

lemma rstrip_nl_append:
  "a \<noteq> [] \<Longrightarrow> last a \<noteq> CHR 0x0A \<Longrightarrow> rstrip_nl (a @ replicate n (CHR 0x0A)) = a"
proof -
  assume a: "a \<noteq> []" "last a \<noteq> CHR 0x0A"
  have "dropWhile (\<lambda>c. c = CHR 0x0A) (replicate n (CHR 0x0A) @ rev a) = rev a"
    using a by (subst dropWhile_append2) (auto simp: hd_rev dropWhile_eq_self_iff)
  then show ?thesis by (simp add: rstrip_nl_def)
qed

lemma rstrip_nl_replicate: "rstrip_nl (replicate n (CHR 0x0A)) = []"
  by (simp add: rstrip_nl_def)

lemma rstrip_nl_prepend:
  assumes "a \<noteq> []" "last a \<noteq> CHR 0x0A"
  shows "rstrip_nl (a @ v) = a @ rstrip_nl v"
proof -
  have "dropWhile (\<lambda>c. c = CHR 0x0A) (rev a) = rev a"
    using assms by (cases "rev a") (auto simp: last_rev hd_rev dest: arg_cong [where f = hd])
  then show ?thesis
    by (simp add: rstrip_nl_def dropWhile_append)
qed

lemma find_sep_bytes_suffix:
  "CHR '' '' \<notin> set n \<Longrightarrow> find_sep '' bytes'' (n @ '' bytes'') = Some (n, [])"
  by (induction n) (auto simp: startswith_def)

lemma str_replace_bytes_suffix:
  "CHR '' '' \<notin> set n \<Longrightarrow> str_replace '' bytes'' '''' (n @ '' bytes'') = n"
  by (subst str_replace.simps, subst str_replace.simps) (simp add: find_sep_bytes_suffix)

lemma find_sep_File_Size: "find_sep '' : '' (''File Size : '' @ v) = Some (''File Size'', v)"
  by (simp add: startswith_def)

lemma is_marker_File_Size: "\<not> is_marker (''File Size : '' @ v)"
  by (simp add: is_marker_def)

section \<open>File Size lines (C5)\<close>

text \<open>
  C5, as stated: a \<open>File Size\<close> line sets the size field to the value with the suffix
  \<open>" bytes"\<close> stripped. It fails where \<open>" bytes"\<close> occurs before the end of the value:
  \<open>replace\<close> removes every occurrence, so \<open>"1 bytes 2 bytes"\<close> is stored as \<open>"1 2"\<close>,
  while stripping the suffix gives \<open>"1 bytes 2"\<close>.
\<close>

theorem C5_counterexample:
  "df_size (setitem (Datafile_init ''Wombat/x/a.hdf'') ''File Size'' ''1 bytes 2 bytes'') = PyStr ''1 2''
   \<and> strip_suffix '' bytes'' ''1 bytes 2 bytes'' = ''1 bytes 2''"
  by code_simp

text \<open>
  C5, amended: for every Datafile record \<open>d\<close> and every value \<open>v\<close>, storing the key
  \<open>File Size\<close> changes nothing but the size field (the metadata map and the name are
  those of \<open>d\<close>), and the size field becomes \<open>v\<close> with every occurrence of \<open>" bytes"\<close>
  removed; for a value \<open>n + " bytes"\<close> whose \<open>n\<close> has no space this is \<open>n\<close>. A line
  \<open>File Size : v\<close> read while record \<open>i\<close> is open does exactly that to record \<open>i\<close> and
  leaves every other record and the open reference as they are.
\<close>

theorem C5_setitem_File_Size:
  "setitem d ''File Size'' v = d\<lparr>df_size := PyStr (str_replace '' bytes'' '''' v)\<rparr>
   \<and> (CHR '' '' \<notin> set n \<longrightarrow> str_replace '' bytes'' '''' (n @ '' bytes'') = n)
   \<and> (ps_df st = Some i \<longrightarrow>
        parse_line cfg beamlines st (''File Size : '' @ v) =
          Inr (st\<lparr>ps_files := (ps_files st)
                 [i := (ps_files st ! i)\<lparr>df_size := PyStr (str_replace '' bytes'' '''' (rstrip_nl v))\<rparr>]\<rparr>))"
proof (intro conjI impI)
  show s: "\<And>d v. setitem d ''File Size'' v = d\<lparr>df_size := PyStr (str_replace '' bytes'' '''' v)\<rparr>"
    by (simp add: setitem_def)
  show "str_replace '' bytes'' '''' (n @ '' bytes'') = n" if "CHR '' '' \<notin> set n"
    using that by (rule str_replace_bytes_suffix)
  show "parse_line cfg beamlines st (''File Size : '' @ v) =
          Inr (st\<lparr>ps_files := (ps_files st)
                 [i := (ps_files st ! i)\<lparr>df_size := PyStr (str_replace '' bytes'' '''' (rstrip_nl v))\<rparr>]\<rparr>)"
    if "ps_df st = Some i"
  proof -
    define l where "l = ''File Size : '' @ rstrip_nl v"
    have r: "rstrip_nl (''File Size : '' @ v) = l"
      unfolding l_def by (rule rstrip_nl_prepend) simp_all
    have m: "\<not> is_marker l" "l \<noteq> []"
      and f: "find_sep '' : '' l = Some (''File Size'', rstrip_nl v)"
      unfolding l_def by (simp_all add: is_marker_def startswith_def)
    show ?thesis
      unfolding parse_line_def r using that by (simp add: m f s)
  qed
qed

theorem C5_witness:
  "parse_line config [''Wombat''] \<lparr>ps_files = [Datafile_init ''Wombat/x/a.hdf''], ps_df = Some 0\<rparr>
     (''File Size : 1234 bytes'' @ [CHR 0x0A])
   = Inr \<lparr>ps_files = [\<lparr>df_name = ''Wombat/x/a.hdf'', df_data = [], df_size = PyStr ''1234''\<rparr>],
          ps_df = Some 0\<rparr>"
proof -
  have a: "CHR '' '' \<notin> set ''1234''" by simp
  have b: "ps_df \<lparr>ps_files = [Datafile_init ''Wombat/x/a.hdf''], ps_df = Some 0\<rparr> = Some 0" by simp
  have c: "rstrip_nl (''1234 bytes'' @ [CHR 0x0A]) = ''1234'' @ '' bytes''" by code_simp
  from C5_setitem_File_Size [where n = "''1234''" and i = 0
     and st = "\<lparr>ps_files = [Datafile_init ''Wombat/x/a.hdf''], ps_df = Some 0\<rparr>"
     and cfg = config and beamlines = "[''Wombat'']" and v = "''1234 bytes'' @ [CHR 0x0A]"] a b
  show ?thesis unfolding c by (simp add: Datafile_init_def)
qed

section \<open>Facts about subscripts, path segments and marker lines\<close>

lemma list_get_1_short: "list_get [x] 1 = Inl IndexError"
  by (simp add: list_get_def)

lemma list_get_1: "list_get (x # y # zs) 1 = Inr y"
  by (simp add: list_get_def)

lemma list_get_0_Cons: "list_get (x # xs) 0 = Inr x"
  by (simp add: list_get_def)

lemma str_split_no_slash: "CHR ''/'' \<notin> set s \<Longrightarrow> str_split ''/'' s = [s]"
  by (simp add: str_split_None find_sep_char_None)

lemma str_split_slash:
  assumes "CHR ''/'' \<in> set s"
  shows "\<exists>a b r. str_split ''/'' s = a # b # r"
proof -
  from assms obtain a t where f: "find_sep ''/'' s = Some (a, t)"
    using find_sep_char_None [of "CHR ''/''" s] by (cases "find_sep ''/'' s") auto
  then have "str_split ''/'' s = a # str_split ''/'' t"
    by (simp add: str_split_Some)
  moreover obtain b r where "str_split ''/'' t = b # r"
    using str_split_not_Nil [of "''/''" t] by (cases "str_split ''/'' t") auto
  ultimately show ?thesis by simp
qed

lemma is_marker_tagged: "is_marker (''<b>'' @ p @ ''</b>:'')"
proof -
  have "drop (length (''<b>'' @ p)) ((''<b>'' @ p) @ ''</b>:'') = ''</b>:''"
    by (rule append_eq_conv_conj [THEN iffD1, THEN conjunct2, symmetric]) simp
  then show ?thesis by (simp add: is_marker_def)
qed

lemma marker_path_tagged: "marker_path (''<b>'' @ p @ ''</b>:'') = drop 1 p"
proof -
  have "take (length (''<b>'' @ p)) ((''<b>'' @ p) @ ''</b>:'') = ''<b>'' @ p"
    by (rule append_eq_conv_conj [THEN iffD1, THEN conjunct1, symmetric]) simp
  moreover have "length (''<b>'' @ p @ ''</b>:'') - 5 = length (''<b>'' @ p)" by simp
  ultimately have "marker_path (''<b>'' @ p @ ''</b>:'') = drop 4 (''<b>'' @ p)"
    unfolding marker_path_def by (simp only: append_assoc)
  then show ?thesis by simp
qed

lemma rstrip_nl_tagged:
  "rstrip_nl (''<b>'' @ p @ ''</b>:'' @ replicate n (CHR 0x0A)) = ''<b>'' @ p @ ''</b>:''"
  using rstrip_nl_append [of "''<b>'' @ p @ ''</b>:''" n] by simp

section \<open>The path stored for a marker line (C8)\<close>

text \<open>
  C8: for a marker line \<open><b>\<close> + \<open>p\<close> + \<open></b>:\<close> (with any number of line feeds after
  it) the slice \<open>line[4:-5]\<close> is \<open>p\<close> without its first character, whatever that
  character is. When the first segment \<open>b\<close> of that slice is a selected beamline and
  the file is accepted, the record appended to \<open>files\<close> has that slice as its path,
  becomes the open record, and its beamline is \<open>b\<close>.
\<close>

theorem C8_marker_path:
  assumes "list_get (str_split ''/'' (drop 1 p)) 0 = Inr b"
    and "b \<in> set beamlines"
    and "acceptFile cfg (drop 1 p) b = Inr True"
  shows "marker_path (''<b>'' @ p @ ''</b>:'') = drop 1 p
    \<and> parse_line cfg beamlines st (''<b>'' @ p @ ''</b>:'' @ replicate n (CHR 0x0A)) =
        Inr (st\<lparr>ps_files := ps_files st @ [Datafile_init (drop 1 p)],
                ps_df := Some (length (ps_files st))\<rparr>)
    \<and> getBeamline (Datafile_init (drop 1 p)) = Inr b"
proof (intro conjI)
  show "marker_path (''<b>'' @ p @ ''</b>:'') = drop 1 p"
    by (rule marker_path_tagged)
  show "parse_line cfg beamlines st (''<b>'' @ p @ ''</b>:'' @ replicate n (CHR 0x0A)) =
        Inr (st\<lparr>ps_files := ps_files st @ [Datafile_init (drop 1 p)],
                ps_df := Some (length (ps_files st))\<rparr>)"
    unfolding parse_line_def rstrip_nl_tagged Let_def
    using assms by (simp only: is_marker_tagged marker_path_tagged) simp
  show "getBeamline (Datafile_init (drop 1 p)) = Inr b"
    using assms(1) by (simp add: getBeamline_def Datafile_init_def)
qed

text \<open>C8 at the marker \<open><b>/Wombat/B/f.hdf</b>:\<close> with the table of the source.\<close>

theorem C8_witness:
  "marker_path ''<b>/Wombat/B/f.hdf</b>:'' = ''Wombat/B/f.hdf''
   \<and> parse_line config [''Wombat''] parse_init (''<b>/Wombat/B/f.hdf</b>:'' @ [CHR 0x0A]) =
       Inr \<lparr>ps_files = [Datafile_init ''Wombat/B/f.hdf''], ps_df = Some 0\<rparr>
   \<and> getBeamline (Datafile_init ''Wombat/B/f.hdf'') = Inr ''Wombat''"
proof -
  have h1: "list_get (str_split ''/'' (drop 1 ''/Wombat/B/f.hdf'')) 0 = Inr ''Wombat''"
    by code_simp
  have h2: "''Wombat'' \<in> set [''Wombat'']" by simp
  have h3: "acceptFile config (drop 1 ''/Wombat/B/f.hdf'') ''Wombat'' = Inr True"
    by code_simp
  from C8_marker_path [OF h1 h2 h3, of parse_init 1]
  show ?thesis by (simp add: parse_init_def)
qed

section \<open>Dataset names under the sample rule (C3, C10)\<close>

text \<open>
  C3: under the rule \<open>sample\<close>, a record whose \<open>sample_name\<close> key holds \<open>v\<close> first gets
  the dataset name \<open>v\<close> as it is, with no LogBook coercion; a record without the key whose
  path splits at \<open>/\<close> into \<open>s0, s1, ...\<close> gets \<open>s1\<close>, or \<open>Log Books\<close> when \<open>s1\<close> starts
  with \<open>LogBook\<close>.
\<close>

theorem C3_sample_name_rule:
  assumes "map_of cfg beamline = Some c" and "groupDSRules c = GroupSample"
  shows "(map_of (df_data d) ''sample_name'' = Some (v # vs)
            \<longrightarrow> getDatasetName cfg d beamline = Inr v)
    \<and> (map_of (df_data d) ''sample_name'' = None \<and> str_split ''/'' (df_name d) = s0 # s1 # rest
            \<longrightarrow> getDatasetName cfg d beamline =
                 Inr (if startswith s1 ''LogBook'' then ''Log Books'' else s1))"
  using assms by (simp add: getDatasetName_def list_get_1 list_get_0_Cons)

text \<open>
  C3 at a record with \<open>sample_name = ["Foo"]\<close> and at the paths
  \<open>Wombat/LogBookXYZ/f1\<close> and \<open>Wombat/run1/f1\<close> without the key.
\<close>

theorem C3_witness:
  "getDatasetName config
      \<lparr>df_name = ''Wombat/LogBookXYZ/f1'', df_data = [(''sample_name'', [''Foo''])], df_size = PyInt 0\<rparr>
      ''Wombat'' = Inr ''Foo''
   \<and> getDatasetName config
      \<lparr>df_name = ''Wombat/LogBookXYZ/f1'', df_data = [(''k'', [''v''])], df_size = PyInt 0\<rparr>
      ''Wombat'' = Inr ''Log Books''
   \<and> getDatasetName config
      \<lparr>df_name = ''Wombat/run1/f1'', df_data = [(''k'', [''v''])], df_size = PyInt 0\<rparr>
      ''Wombat'' = Inr ''run1''"
proof -
  have c: "map_of config ''Wombat'' = Some (snd (config ! 4))" by (simp add: config_def)
  have r: "groupDSRules (snd (config ! 4)) = GroupSample" by (simp add: config_def)
  have s1: "str_split ''/'' ''Wombat/LogBookXYZ/f1'' = [''Wombat'', ''LogBookXYZ'', ''f1'']"
    by code_simp
  have s2: "str_split ''/'' ''Wombat/run1/f1'' = [''Wombat'', ''run1'', ''f1'']"
    by code_simp
  from C3_sample_name_rule [OF c r,
      of "\<lparr>df_name = ''Wombat/LogBookXYZ/f1'', df_data = [(''sample_name'', [''Foo''])], df_size = PyInt 0\<rparr>"
         "''Foo''" "[]"]
    C3_sample_name_rule [OF c r,
      of "\<lparr>df_name = ''Wombat/LogBookXYZ/f1'', df_data = [(''k'', [''v''])], df_size = PyInt 0\<rparr>"
         _ _ "''Wombat''" "''LogBookXYZ''" "[''f1'']"]
    C3_sample_name_rule [OF c r,
      of "\<lparr>df_name = ''Wombat/run1/f1'', df_data = [(''k'', [''v''])], df_size = PyInt 0\<rparr>"
         _ _ "''Wombat''" "''run1''" "[''f1'']"]
  show ?thesis by (simp add: s1 s2 startswith_def)
qed

text \<open>
  C10: under the rule \<open>sample\<close>, a record without the \<open>sample_name\<close> key whose path has no
  \<open>/\<close> makes \<open>_getDatasetName\<close> raise IndexError; the function returns a name exactly
  when the key is present (with its first value) or the key is absent and the path has a
  \<open>/\<close>, that is, a second segment.
\<close>

theorem C10_sample_name_partial:
  assumes "map_of cfg beamline = Some c" and "groupDSRules c = GroupSample"
  shows "(map_of (df_data d) ''sample_name'' = None \<and> CHR ''/'' \<notin> set (df_name d)
            \<longrightarrow> getDatasetName cfg d beamline = Inl IndexError)
    \<and> ((\<exists>name. getDatasetName cfg d beamline = Inr name) \<longleftrightarrow>
         (\<exists>v vs. map_of (df_data d) ''sample_name'' = Some (v # vs))
         \<or> (map_of (df_data d) ''sample_name'' = None \<and> CHR ''/'' \<in> set (df_name d)))"
proof -
  have none: "getDatasetName cfg d beamline = Inl IndexError"
    if "map_of (df_data d) ''sample_name'' = None" "CHR ''/'' \<notin> set (df_name d)"
    using that assms by (simp add: getDatasetName_def str_split_no_slash list_get_1_short)
  have some: "\<exists>name. getDatasetName cfg d beamline = Inr name"
    if "map_of (df_data d) ''sample_name'' = None" "CHR ''/'' \<in> set (df_name d)"
  proof -
    from str_split_slash [OF that(2)] obtain a b r
      where "str_split ''/'' (df_name d) = a # b # r" by blast
    with that(1) assms show ?thesis
      by (simp add: getDatasetName_def list_get_1)
  qed
  have key: "getDatasetName cfg d beamline = list_get vs 0"
    if "map_of (df_data d) ''sample_name'' = Some vs" for vs
    using that assms by (simp add: getDatasetName_def)
  show ?thesis
  proof (cases "map_of (df_data d) ''sample_name''")
    case None
    with none some show ?thesis by (cases "CHR ''/'' \<in> set (df_name d)") auto
  next
    case (Some vs)
    with key [OF Some] show ?thesis
      by (cases vs) (simp_all add: list_get_def)
  qed
qed

text \<open>C10 at the paths \<open>Wombat.hdf\<close> (fails) and \<open>Wombat/run1/a.hdf\<close> (returns).\<close>

theorem C10_witness:
  "getDatasetName config \<lparr>df_name = ''Wombat.hdf'', df_data = [(''k'', [''v''])], df_size = PyInt 0\<rparr>
      ''Wombat'' = Inl IndexError
   \<and> (\<exists>name. getDatasetName config
         \<lparr>df_name = ''Wombat/run1/a.hdf'', df_data = [(''k'', [''v''])], df_size = PyInt 0\<rparr>
         ''Wombat'' = Inr name)"
proof -
  have c: "map_of config ''Wombat'' = Some (snd (config ! 4))" by (simp add: config_def)
  have r: "groupDSRules (snd (config ! 4)) = GroupSample" by (simp add: config_def)
  from C10_sample_name_partial [OF c r,
      of "\<lparr>df_name = ''Wombat.hdf'', df_data = [(''k'', [''v''])], df_size = PyInt 0\<rparr>"]
    C10_sample_name_partial [OF c r,
      of "\<lparr>df_name = ''Wombat/run1/a.hdf'', df_data = [(''k'', [''v''])], df_size = PyInt 0\<rparr>"]
  show ?thesis by simp
qed

section \<open>Lines without a separator (C7)\<close>

text \<open>
  C7: while a record is open, a line that is neither a marker nor blank and does not
  contain \<open>" : "\<close> leaves the whole parser state as it is (files, their metadata and
  sizes, and the open record), so the rest of the stream is parsed as if the line were
  absent; in particular a following line that splits into \<open>k\<close> and \<open>v\<close> at its first
  separator is stored into the same open record.
\<close>

theorem C7_no_separator_skipped:
  assumes "ps_df st = Some i"
    and "\<not> is_marker (rstrip_nl raw)"
    and "rstrip_nl raw \<noteq> []"
    and "\<nexists>a b. rstrip_nl raw = a @ '' : '' @ b"
  shows "parse_line cfg beamlines st raw = Inr st
    \<and> parse_lines cfg beamlines st (raw # rest) = parse_lines cfg beamlines st rest
    \<and> (\<not> is_marker (rstrip_nl raw2) \<and> find_sep '' : '' (rstrip_nl raw2) = Some (k, v) \<longrightarrow>
         parse_lines cfg beamlines st [raw, raw2] =
           Inr (st\<lparr>ps_files := (ps_files st)[i := setitem (ps_files st ! i) k v]\<rparr>))"
proof -
  from assms(4) have n: "find_sep '' : '' (rstrip_nl raw) = None"
    by (simp add: find_sep_None_iff)
  have skip: "parse_line cfg beamlines st raw = Inr st"
    using assms(1-3) n by (simp add: parse_line_def)
  have next_line: "parse_line cfg beamlines st raw2 =
      Inr (st\<lparr>ps_files := (ps_files st)[i := setitem (ps_files st ! i) k v]\<rparr>)"
    if "\<not> is_marker (rstrip_nl raw2)" "find_sep '' : '' (rstrip_nl raw2) = Some (k, v)"
  proof -
    from that(2) have "rstrip_nl raw2 \<noteq> []" by auto
    with that assms(1) show ?thesis by (simp add: parse_line_def)
  qed
  from skip next_line show ?thesis by simp
qed

text \<open>C7 at an open record followed by a line without separator and the line \<open>k : v\<close>.\<close>

theorem C7_witness:
  "parse_lines config [''Wombat''] \<lparr>ps_files = [Datafile_init ''Wombat/x/a.hdf''], ps_df = Some 0\<rparr>
      [''no separator here'' @ [CHR 0x0A], ''k : v'' @ [CHR 0x0A]]
   = Inr \<lparr>ps_files = [\<lparr>df_name = ''Wombat/x/a.hdf'', df_data = [(''k'', [''v''])], df_size = PyInt 0\<rparr>],
          ps_df = Some 0\<rparr>"
proof -
  let ?st = "\<lparr>ps_files = [Datafile_init ''Wombat/x/a.hdf''], ps_df = Some 0\<rparr>"
  have r1: "rstrip_nl (''no separator here'' @ [CHR 0x0A]) = ''no separator here''"
    by code_simp
  have r2: "rstrip_nl (''k : v'' @ [CHR 0x0A]) = ''k : v''"
    by code_simp
  have h1: "ps_df ?st = Some 0" by simp
  have h2: "\<not> is_marker (rstrip_nl (''no separator here'' @ [CHR 0x0A]))"
    unfolding r1 by code_simp
  have h3: "rstrip_nl (''no separator here'' @ [CHR 0x0A]) \<noteq> []"
    unfolding r1 by simp
  have f: "find_sep '' : '' ''no separator here'' = None" by code_simp
  have h4: "\<nexists>a b. rstrip_nl (''no separator here'' @ [CHR 0x0A]) = a @ '' : '' @ b"
    unfolding r1 using f by (rule find_sep_None_iff [THEN iffD1])
  have h5: "\<not> is_marker (rstrip_nl (''k : v'' @ [CHR 0x0A]))"
    unfolding r2 by code_simp
  have h6: "find_sep '' : '' (rstrip_nl (''k : v'' @ [CHR 0x0A])) = Some (''k'', ''v'')"
    unfolding r2 by code_simp
  have s: "setitem (Datafile_init ''Wombat/x/a.hdf'') ''k'' ''v'' =
      \<lparr>df_name = ''Wombat/x/a.hdf'', df_data = [(''k'', [''v''])], df_size = PyInt 0\<rparr>"
    by code_simp
  from C7_no_separator_skipped [OF h1 h2 h3 h4, of config "[''Wombat'']" "[]"
      "''k : v'' @ [CHR 0x0A]" "''k''" "''v''"] h5 h6
  have p: "parse_lines config [''Wombat''] ?st
      [''no separator here'' @ [CHR 0x0A], ''k : v'' @ [CHR 0x0A]] =
      Inr (?st\<lparr>ps_files := (ps_files ?st)[0 := setitem (ps_files ?st ! 0) ''k'' ''v'']\<rparr>)"
    by blast
  have e: "?st\<lparr>ps_files := (ps_files ?st)[0 := setitem (ps_files ?st ! 0) ''k'' ''v'']\<rparr> =
      \<lparr>ps_files = [\<lparr>df_name = ''Wombat/x/a.hdf'', df_data = [(''k'', [''v''])], df_size = PyInt 0\<rparr>],
       ps_df = Some 0\<rparr>"
    by (simp add: s)
  show ?thesis using p unfolding e .
qed

section \<open>The sample sheet (C6, C9)\<close>

lemma str_split_twice:
  assumes "sep \<noteq> []" and "s = a @ sep @ b @ sep @ c"
  shows "\<exists>x y z r. str_split sep s = x # y # z # r"
proof -
  from find_sep_leftmost [of s a sep "b @ sep @ c"] assms(2)
  obtain a' t where f: "find_sep sep s = Some (a', t)" and le: "length a' \<le> length a"
    by auto
  from find_sep_Some_eq [OF f] have s: "s = a' @ sep @ t" .
  have "t = drop (length a' + length sep) s"
    by (subst s) simp
  also have "\<dots> = drop (length a' + length sep) ((a @ sep) @ b @ sep @ c)"
    by (simp add: assms(2))
  also have "\<dots> = drop (length a' + length sep) (a @ sep) @ b @ sep @ c"
    using le by (subst drop_append) simp
  finally have "t = (drop (length a' + length sep) (a @ sep) @ b) @ sep @ c"
    by simp
  from find_sep_leftmost [OF this] obtain b' u where g: "find_sep sep t = Some (b', u)"
    by blast
  obtain z r where "str_split sep u = z # r"
    using str_split_not_Nil [of sep u] by (cases "str_split sep u") auto
  with f g assms(1) show ?thesis
    by (simp add: str_split_Some)
qed

lemma sample_line_bad:
  assumes "rstrip_nl l \<noteq> []"
    and "(\<nexists>a b. rstrip_nl l = a @ '' : '' @ b) \<or> (\<exists>a b c. rstrip_nl l = a @ '' : '' @ b @ '' : '' @ c)"
  shows "sample_line cat st l = Inl ValueError"
proof -
  from assms(2) consider "str_split '' : '' (rstrip_nl l) = [rstrip_nl l]"
    | x y z r where "str_split '' : '' (rstrip_nl l) = x # y # z # r"
  proof
    assume "\<nexists>a b. rstrip_nl l = a @ '' : '' @ b"
    then have "find_sep '' : '' (rstrip_nl l) = None" by (rule find_sep_None_iff [THEN iffD2])
    then have "str_split '' : '' (rstrip_nl l) = [rstrip_nl l]" by (rule str_split_None)
    then show ?thesis by (rule that(1))
  next
    assume "\<exists>a b c. rstrip_nl l = a @ '' : '' @ b @ '' : '' @ c"
    then obtain a b c where "rstrip_nl l = a @ '' : '' @ b @ '' : '' @ c" by blast
    from str_split_twice [OF _ this] obtain x y z r
      where "str_split '' : '' (rstrip_nl l) = x # y # z # r" by auto
    then show ?thesis by (rule that(2))
  qed
  then show ?thesis
    using assms(1) by cases (simp_all add: sample_line_def)
qed

lemma sample_line_error: "sample_line cat st l = Inl e \<Longrightarrow> e = ValueError"
  unfolding sample_line_def Let_def
  by (auto split: if_splits list.splits option.splits)

lemma sample_lines_bad:
  assumes "l \<in> set ls" and bad: "\<And>st'. sample_line cat st' l = Inl ValueError"
  shows "sample_lines cat st ls = Inl ValueError"
  using assms(1)
proof (induction ls arbitrary: st)
  case Nil
  then show ?case by simp
next
  case (Cons x xs)
  show ?case
  proof (cases "sample_line cat st x")
    case (Inl e)
    then show ?thesis by (simp add: sample_line_error [OF Inl])
  next
    case (Inr st1)
    with bad have "l \<noteq> x" by auto
    with Cons.prems have "l \<in> set xs" by simp
    from Cons.IH [OF this] Inr show ?thesis by simp
  qed
qed

lemma parse_line_non_marker:
  assumes "\<not> is_marker (rstrip_nl l)" and "rstrip_nl l \<noteq> []"
  shows "parse_line cfg beamlines st l =
    Inr (case (ps_df st, find_sep '' : '' (rstrip_nl l)) of
           (Some i, Some (k, v)) \<Rightarrow>
             st\<lparr>ps_files := (ps_files st)[i := setitem (ps_files st ! i) k v]\<rparr>
         | _ \<Rightarrow> st)"
  using assms by (simp add: parse_line_def split: option.splits)

text \<open>
  C6: the sample sheet with the three lines \<open>SampleDescription : foo\<close>,
  \<open>ChemicalName : bar\<close> and \<open>Mass : 5 mg\<close>, each ended by a line feed, is read as
  these three lines. The first line opens a parameter set of the sample schema
  holding \<open>SampleDescription = foo\<close>; the whole sheet yields exactly two parameter sets,
  that one and then one of the chemical schema holding \<open>ChemicalName = bar\<close> and
  \<open>Mass = 5 mg\<close>, in this order. The parameter-name table of the database is a
  parameter of the model: the three names are assumed to be in it under their schema.
\<close>

theorem C6_sample_sheet_example:
  assumes "cat sampleSchema ''SampleDescription'' = Some ''SampleDescription''"
    and "cat chemicalSchema ''ChemicalName'' = Some ''ChemicalName''"
    and "cat chemicalSchema ''Mass'' = Some ''Mass''"
  shows "file_lines (''SampleDescription : foo'' @ [CHR 0x0A] @ ''ChemicalName : bar'' @ [CHR 0x0A]
            @ ''Mass : 5 mg'' @ [CHR 0x0A])
      = [''SampleDescription : foo'' @ [CHR 0x0A], ''ChemicalName : bar'' @ [CHR 0x0A],
         ''Mass : 5 mg'' @ [CHR 0x0A]]
    \<and> sample_lines cat sample_init [''SampleDescription : foo'' @ [CHR 0x0A]]
      = Inr \<lparr>ss_sets = [\<lparr>eps_schema = sampleSchema,
                           eps_parameters = [(''SampleDescription'', ''foo'')]\<rparr>],
             sample_ps = Some 0, chemical_ps = None\<rparr>
    \<and> sample_lines cat sample_init
        (file_lines (''SampleDescription : foo'' @ [CHR 0x0A] @ ''ChemicalName : bar'' @ [CHR 0x0A]
            @ ''Mass : 5 mg'' @ [CHR 0x0A]))
      = Inr \<lparr>ss_sets = [\<lparr>eps_schema = sampleSchema,
                           eps_parameters = [(''SampleDescription'', ''foo'')]\<rparr>,
                         \<lparr>eps_schema = chemicalSchema,
                           eps_parameters = [(''ChemicalName'', ''bar''), (''Mass'', ''5 mg'')]\<rparr>],
             sample_ps = Some 0, chemical_ps = Some 1\<rparr>"
proof -
  let ?l1 = "''SampleDescription : foo'' @ [CHR 0x0A]"
  let ?l2 = "''ChemicalName : bar'' @ [CHR 0x0A]"
  let ?l3 = "''Mass : 5 mg'' @ [CHR 0x0A]"
  let ?s1 = "\<lparr>ss_sets = [\<lparr>eps_schema = sampleSchema,
                           eps_parameters = [(''SampleDescription'', ''foo'')]\<rparr>],
             sample_ps = Some 0, chemical_ps = None\<rparr>"
  let ?s2 = "\<lparr>ss_sets = [\<lparr>eps_schema = sampleSchema,
                           eps_parameters = [(''SampleDescription'', ''foo'')]\<rparr>,
                         \<lparr>eps_schema = chemicalSchema,
                           eps_parameters = [(''ChemicalName'', ''bar'')]\<rparr>],
             sample_ps = Some 0, chemical_ps = Some 1\<rparr>"
  let ?s3 = "\<lparr>ss_sets = [\<lparr>eps_schema = sampleSchema,
                           eps_parameters = [(''SampleDescription'', ''foo'')]\<rparr>,
                         \<lparr>eps_schema = chemicalSchema,
                           eps_parameters = [(''ChemicalName'', ''bar''), (''Mass'', ''5 mg'')]\<rparr>],
             sample_ps = Some 0, chemical_ps = Some 1\<rparr>"
  have fl: "file_lines (''SampleDescription : foo'' @ [CHR 0x0A] @ ''ChemicalName : bar'' @ [CHR 0x0A]
            @ ''Mass : 5 mg'' @ [CHR 0x0A]) = [?l1, ?l2, ?l3]"
    by code_simp
  have r1: "rstrip_nl ?l1 = ''SampleDescription : foo''"
    and r2: "rstrip_nl ?l2 = ''ChemicalName : bar''"
    and r3: "rstrip_nl ?l3 = ''Mass : 5 mg''"
    by code_simp+
  have p1: "str_split '' : '' ''SampleDescription : foo'' = [''SampleDescription'', ''foo'']"
    and p2: "str_split '' : '' ''ChemicalName : bar'' = [''ChemicalName'', ''bar'']"
    and p3: "str_split '' : '' ''Mass : 5 mg'' = [''Mass'', ''5 mg'']"
    by code_simp+
  have l1: "sample_line cat sample_init ?l1 = Inr ?s1"
    unfolding sample_line_def r1 using assms(1) by (simp add: sample_init_def p1)
  have l2: "sample_line cat ?s1 ?l2 = Inr ?s2"
    unfolding sample_line_def r2 using assms(2) by (simp add: p2)
  have l3: "sample_line cat ?s2 ?l3 = Inr ?s3"
    unfolding sample_line_def r3 using assms(3) by (simp add: p3)
  have a: "sample_lines cat sample_init [?l1] = Inr ?s1"
    by (simp only: sample_lines.simps l1 sum.case)
  have b: "sample_lines cat sample_init [?l1, ?l2, ?l3] = Inr ?s3"
    by (simp only: sample_lines.simps l1 l2 l3 sum.case)
  from fl a b show ?thesis by (simp only: simp_thms)
qed

text \<open>C6 with a parameter-name table that knows every key under its own spelling.\<close>

theorem C6_witness:
  "sample_lines (\<lambda>schema key. Some key) sample_init
        (file_lines (''SampleDescription : foo'' @ [CHR 0x0A] @ ''ChemicalName : bar'' @ [CHR 0x0A]
            @ ''Mass : 5 mg'' @ [CHR 0x0A]))
      = Inr \<lparr>ss_sets = [\<lparr>eps_schema = sampleSchema,
                           eps_parameters = [(''SampleDescription'', ''foo'')]\<rparr>,
                         \<lparr>eps_schema = chemicalSchema,
                           eps_parameters = [(''ChemicalName'', ''bar''), (''Mass'', ''5 mg'')]\<rparr>],
             sample_ps = Some 0, chemical_ps = Some 1\<rparr>"
  using C6_sample_sheet_example [of "\<lambda>schema key. Some key"] by simp

text \<open>
  C9: a line of the sample sheet that is not blank and either does not contain \<open>" : "\<close>
  or contains it twice (one occurrence after the other) makes the two-way unpack raise
  ValueError: the line fails in any state, the loop over the sheet fails, and
  \<open>_parse_metaman\<close> as a whole fails with it as soon as one beamline of the request is in
  the table. The loop over the MetaMan file never fails on such a line (when it is no
  marker): with a record open it stores the text before the first separator as key and
  the rest as value, and otherwise leaves its state as it is.
\<close>

theorem C9_sample_sheet_aborts:
  assumes "l \<in> set (file_lines sample)"
    and "rstrip_nl l \<noteq> []"
    and "(\<nexists>a b. rstrip_nl l = a @ '' : '' @ b)
         \<or> (\<exists>a b c. rstrip_nl l = a @ '' : '' @ b @ '' : '' @ c)"
    and "\<exists>b \<in> set (str_split '', '' beamline). b \<in> set (map fst cfg)"
  shows "sample_line cat sst l = Inl ValueError
    \<and> sample_lines cat sample_init (file_lines sample) = Inl ValueError
    \<and> parse_metaman cfg cat beamline (Some sample) metaman = Inl ValueError
    \<and> (\<not> is_marker (rstrip_nl l) \<longrightarrow>
         parse_line cfg beamlines st l =
           Inr (case (ps_df st, find_sep '' : '' (rstrip_nl l)) of
                  (Some i, Some (k, v)) \<Rightarrow>
                    st\<lparr>ps_files := (ps_files st)[i := setitem (ps_files st ! i) k v]\<rparr>
                | _ \<Rightarrow> st))"
proof -
  have bad: "sample_line cat st' l = Inl ValueError" for st'
    using assms(2,3) by (rule sample_line_bad)
  have all: "sample_lines cat sample_init (file_lines sample) = Inl ValueError"
    using assms(1) bad by (rule sample_lines_bad)
  from assms(4) have "filter (\<lambda>b. b \<in> set (map fst cfg)) (str_split '', '' beamline) \<noteq> []"
    by (auto simp: filter_empty_conv)
  then have top: "parse_metaman cfg cat beamline (Some sample) metaman = Inl ValueError"
    by (simp add: parse_metaman_def all)
  from bad all top parse_line_non_marker [OF _ assms(2)] show ?thesis by blast
qed

text \<open>C9 at a sheet whose second line is \<open>Note : a : b\<close>.\<close>

theorem C9_witness:
  "sample_lines (\<lambda>schema key. Some key) sample_init
      (file_lines (''SampleDescription : foo'' @ [CHR 0x0A] @ ''Note : a : b'' @ [CHR 0x0A])) = Inl ValueError
   \<and> parse_metaman config (\<lambda>schema key. Some key) ''Wombat''
        (Some (''SampleDescription : foo'' @ [CHR 0x0A] @ ''Note : a : b'' @ [CHR 0x0A]))
        (''<b>/Wombat/x/a.hdf</b>:'' @ [CHR 0x0A]) = Inl ValueError
   \<and> parse_line config [''Wombat''] \<lparr>ps_files = [Datafile_init ''Wombat/x/a.hdf''], ps_df = Some 0\<rparr>
        (''Note : a : b'' @ [CHR 0x0A])
      = Inr \<lparr>ps_files = [\<lparr>df_name = ''Wombat/x/a.hdf'', df_data = [(''Note'', [''a : b''])],
                           df_size = PyInt 0\<rparr>], ps_df = Some 0\<rparr>"
proof -
  let ?sample = "''SampleDescription : foo'' @ [CHR 0x0A] @ ''Note : a : b'' @ [CHR 0x0A]"
  let ?l = "''Note : a : b'' @ [CHR 0x0A]"
  let ?st = "\<lparr>ps_files = [Datafile_init ''Wombat/x/a.hdf''], ps_df = Some 0\<rparr>"
  have r: "rstrip_nl ?l = ''Note : a : b''" by code_simp
  have h1: "?l \<in> set (file_lines ?sample)" by code_simp
  have h2: "rstrip_nl ?l \<noteq> []" unfolding r by simp
  have "rstrip_nl ?l = ''Note'' @ '' : '' @ ''a'' @ '' : '' @ ''b''" unfolding r by simp
  then have h3: "(\<nexists>a b. rstrip_nl ?l = a @ '' : '' @ b)
         \<or> (\<exists>a b c. rstrip_nl ?l = a @ '' : '' @ b @ '' : '' @ c)" by blast
  have h4: "\<exists>b \<in> set (str_split '', '' ''Wombat''). b \<in> set (map fst config)" by code_simp
  have h5: "\<not> is_marker (rstrip_nl ?l)" unfolding r by code_simp
  have e: "(case (ps_df ?st, find_sep '' : '' (rstrip_nl ?l)) of
                  (Some i, Some (k, v)) \<Rightarrow>
                    ?st\<lparr>ps_files := (ps_files ?st)[i := setitem (ps_files ?st ! i) k v]\<rparr>
                | _ \<Rightarrow> ?st) =
      \<lparr>ps_files = [\<lparr>df_name = ''Wombat/x/a.hdf'', df_data = [(''Note'', [''a : b''])],
                           df_size = PyInt 0\<rparr>], ps_df = Some 0\<rparr>"
    unfolding r by code_simp
  from C9_sample_sheet_aborts [OF h1 h2 h3 h4, of "\<lambda>schema key. Some key" _
      "''<b>/Wombat/x/a.hdf</b>:'' @ [CHR 0x0A]" "[''Wombat'']" ?st] h5
  show ?thesis unfolding e by blast
qed

section \<open>Rejected markers (C4)\<close>

lemma parse_lines_append:
  "parse_lines cfg beamlines st (xs @ ys) =
     (case parse_lines cfg beamlines st xs of
        Inl e \<Rightarrow> Inl e
      | Inr st' \<Rightarrow> parse_lines cfg beamlines st' ys)"
  by (induction xs arbitrary: st) (auto split: sum.splits)

lemma parse_line_rejected:
  assumes "is_marker (rstrip_nl m)" and "rejected cfg beamlines (marker_path (rstrip_nl m))"
  shows "parse_line cfg beamlines st m = Inr st"
  using assms by (auto simp: parse_line_def rejected_def Let_def split: sum.splits)

lemma parse_line_closed:
  assumes "ps_df st = None" and "\<not> is_marker (rstrip_nl l)"
  shows "parse_line cfg beamlines st l = Inr st"
  using assms by (cases st) (simp add: parse_line_def Let_def)

lemma parse_lines_closed:
  assumes "ps_df st = None" and "\<forall>l \<in> set ls. \<not> is_marker (rstrip_nl l)"
  shows "parse_lines cfg beamlines st ls = Inr st"
  using assms by (induction ls) (simp_all add: parse_line_closed)

text \<open>
  C4, as stated: the \<open>key : value\<close> lines after a rejected marker contribute to no
  record. It fails when the block before the rejected marker was not closed by a blank
  line: the rejected marker leaves \<open>df\<close> as it is, so with Wombat alone selected the
  line \<open>k2 : v2\<close> after the rejected Quokka marker is stored into the Wombat record that
  is still open.
\<close>

theorem C4_counterexample:
  "rejected config [''Wombat''] (marker_path ''<b>/Quokka/x/b.hdf</b>:'')
   \<and> parse_lines config [''Wombat''] parse_init
       [''<b>/Wombat/x/a.hdf</b>:'' @ [CHR 0x0A], ''k : v'' @ [CHR 0x0A],
        ''<b>/Quokka/x/b.hdf</b>:'' @ [CHR 0x0A], ''k2 : v2'' @ [CHR 0x0A], [CHR 0x0A]]
     = Inr \<lparr>ps_files = [\<lparr>df_name = ''Wombat/x/a.hdf'',
                           df_data = [(''k'', [''v'']), (''k2'', [''v2''])],
                           df_size = PyInt 0\<rparr>],
            ps_df = None\<rparr>"
  by code_simp

text \<open>
  C4, amended: a marker line whose path is rejected (first segment not selected, or file
  type not accepted) creates no record and leaves the parser state as it is; when no
  record is open at that marker (the block before it was closed by a blank line, or no
  block was accepted yet), the lines after it up to the next marker change nothing
  either, so they contribute to no record of the output.
\<close>

theorem C4_rejected_marker:
  assumes "is_marker (rstrip_nl m)"
    and "rejected cfg beamlines (marker_path (rstrip_nl m))"
  shows "parse_line cfg beamlines st m = Inr st
    \<and> (ps_df st = None \<and> (\<forall>l \<in> set ls. \<not> is_marker (rstrip_nl l))
         \<longrightarrow> parse_lines cfg beamlines st (m # ls) = Inr st)"
  using parse_line_rejected [OF assms] parse_lines_closed [of st ls cfg beamlines]
  by simp

text \<open>C4 at a Wombat block closed by a blank line, followed by a Quokka block.\<close>

theorem C4_witness:
  "parse_lines config [''Wombat''] parse_init
       [''<b>/Wombat/x/a.hdf</b>:'' @ [CHR 0x0A], ''k : v'' @ [CHR 0x0A], [CHR 0x0A],
        ''<b>/Quokka/x/b.hdf</b>:'' @ [CHR 0x0A], ''k2 : v2'' @ [CHR 0x0A], [CHR 0x0A]]
     = Inr \<lparr>ps_files = [\<lparr>df_name = ''Wombat/x/a.hdf'', df_data = [(''k'', [''v''])],
                           df_size = PyInt 0\<rparr>],
            ps_df = None\<rparr>"
proof -
  let ?st = "\<lparr>ps_files = [\<lparr>df_name = ''Wombat/x/a.hdf'', df_data = [(''k'', [''v''])],
                           df_size = PyInt 0\<rparr>], ps_df = None\<rparr>"
  let ?m = "''<b>/Quokka/x/b.hdf</b>:'' @ [CHR 0x0A]"
  let ?ls = "[''k2 : v2'' @ [CHR 0x0A], [CHR 0x0A]]"
  have pre: "parse_lines config [''Wombat''] parse_init
       [''<b>/Wombat/x/a.hdf</b>:'' @ [CHR 0x0A], ''k : v'' @ [CHR 0x0A], [CHR 0x0A]] = Inr ?st"
    by code_simp
  have h1: "is_marker (rstrip_nl ?m)" by code_simp
  have h2: "rejected config [''Wombat''] (marker_path (rstrip_nl ?m))" by code_simp
  have h3: "ps_df ?st = None" by simp
  have h4: "\<forall>l \<in> set ?ls. \<not> is_marker (rstrip_nl l)" by code_simp
  from C4_rejected_marker [OF h1 h2, of ?st ?ls] h3 h4
  have post: "parse_lines config [''Wombat''] ?st (?m # ?ls) = Inr ?st" by blast
  have "parse_lines config [''Wombat''] parse_init
       ([''<b>/Wombat/x/a.hdf</b>:'' @ [CHR 0x0A], ''k : v'' @ [CHR 0x0A], [CHR 0x0A]] @ (?m # ?ls))
       = Inr ?st"
    by (simp only: parse_lines_append pre post sum.case)
  then show ?thesis by (simp only: append.simps)
qed

section \<open>One record per accepted block (C2)\<close>

lemma map_of_dict_set: "map_of (dict_set d k v) = (map_of d)(k \<mapsto> v)"
  by (induction d k v rule: dict_set.induct) auto

lemma norm_key_replace: "str_replace ''/'' '''' (str_replace '' '' '''' k) = norm_key k"
  by (simp add: str_replace_char_filter norm_key_def conj_commute)

lemma setitem_name: "df_name (setitem d k v) = df_name d"
  by (simp add: setitem_def Let_def split: option.splits)

lemma setitem_data:
  "map_of (df_data (setitem d k v)) k' =
     (if k \<noteq> ''File Size'' \<and> norm_key k = k'
      then Some ((case map_of (df_data d) k' of None \<Rightarrow> [] | Some vs \<Rightarrow> vs) @ [v])
      else map_of (df_data d) k')"
  by (simp add: setitem_def Let_def norm_key_replace map_of_dict_set split: option.splits)

lemma setitem_values_nonempty:
  assumes "\<And>k vs. map_of (df_data d) k = Some vs \<Longrightarrow> vs \<noteq> []"
    and "map_of (df_data (setitem d key val)) k = Some vs"
  shows "vs \<noteq> []"
  using assms by (auto simp: setitem_data split: if_splits)

lemma foldl_store_name: "df_name (foldl store_line d ls) = df_name d"
  by (induction ls arbitrary: d) (simp_all add: store_line_def setitem_name)

lemma foldl_store_data:
  assumes "map_of (df_data d) k = (if vs = [] then None else Some vs)"
  shows "map_of (df_data (foldl store_line d ls)) k =
     (if vs @ values_of k ls = [] then None else Some (vs @ values_of k ls))"
  using assms
proof (induction ls arbitrary: d vs)
  case Nil
  then show ?case by (simp add: values_of_def)
next
  case (Cons l ls)
  let ?d = "store_line d l"
  let ?vs = "vs @ values_of k [l]"
  have "map_of (df_data ?d) k = (if ?vs = [] then None else Some ?vs)"
    using Cons.prems by (simp add: store_line_def setitem_data values_of_def)
  from Cons.IH [OF this] show ?case
    by (simp add: values_of_def)
qed

lemma rstrip_nl_snoc: "l \<noteq> [] \<Longrightarrow> last l \<noteq> CHR 0x0A \<Longrightarrow> rstrip_nl (l @ [CHR 0x0A]) = l"
  using rstrip_nl_append [of l 1] by simp

lemma rstrip_nl_blank: "rstrip_nl [CHR 0x0A] = []"
  by (simp add: rstrip_nl_def)

lemma kv_line_nonempty: "kv_line l \<Longrightarrow> l \<noteq> []"
  by (auto simp: kv_line_def)

lemma parse_line_kv:
  assumes "kv_line l" and "ps_df st = Some i"
  shows "parse_line cfg beamlines st (l @ [CHR 0x0A]) =
     Inr (st\<lparr>ps_files := (ps_files st)[i := store_line (ps_files st ! i) l]\<rparr>)"
proof -
  from assms(1) have r: "rstrip_nl (l @ [CHR 0x0A]) = l"
    by (intro rstrip_nl_snoc kv_line_nonempty) (simp_all add: kv_line_def)
  from assms(1) obtain k v where f: "find_sep '' : '' l = Some (k, v)"
    by (auto simp: kv_line_def)
  from assms(1) have m: "\<not> is_marker l" "l \<noteq> []"
    by (auto simp: kv_line_def)
  show ?thesis
    unfolding parse_line_def r
    using assms(2) by (simp add: m f store_line_def line_key_def line_value_def)
qed

lemma parse_lines_kv:
  assumes "\<forall>l \<in> set ls. kv_line l" and "ps_df st = Some i" and "i < length (ps_files st)"
  shows "parse_lines cfg beamlines st (map (\<lambda>l. l @ [CHR 0x0A]) ls) =
     Inr (st\<lparr>ps_files := (ps_files st)[i := foldl store_line (ps_files st ! i) ls]\<rparr>)"
  using assms
proof (induction ls arbitrary: st)
  case Nil
  then show ?case by simp
next
  case (Cons l ls)
  let ?st = "st\<lparr>ps_files := (ps_files st)[i := store_line (ps_files st ! i) l]\<rparr>"
  from Cons.prems have step: "parse_line cfg beamlines st (l @ [CHR 0x0A]) = Inr ?st"
    by (simp add: parse_line_kv)
  have "parse_lines cfg beamlines ?st (map (\<lambda>l. l @ [CHR 0x0A]) ls) =
     Inr (?st\<lparr>ps_files := (ps_files ?st)[i := foldl store_line (ps_files ?st ! i) ls]\<rparr>)"
    using Cons.prems by (intro Cons.IH) simp_all
  with step Cons.prems(3) show ?case by simp
qed

lemma parse_line_accepted:
  assumes "accepted cfg beamlines path"
  shows "parse_line cfg beamlines st (''<b>/'' @ path @ ''</b>:'' @ [CHR 0x0A]) =
     Inr (st\<lparr>ps_files := ps_files st @ [Datafile_init path],
             ps_df := Some (length (ps_files st))\<rparr>)"
proof -
  define line where "line = ''<b>'' @ (CHR ''/'' # path) @ ''</b>:''"
  have r: "rstrip_nl (''<b>/'' @ path @ ''</b>:'' @ [CHR 0x0A]) = line"
    unfolding line_def using rstrip_nl_tagged [of "CHR ''/'' # path" 1] by simp
  have m: "is_marker line"
    unfolding line_def by (rule is_marker_tagged)
  have p: "marker_path line = path"
    unfolding line_def by (simp only: marker_path_tagged) simp
  from assms obtain b where b: "list_get (str_split ''/'' path) 0 = Inr b"
    "b \<in> set beamlines" "acceptFile cfg path b = Inr True"
    by (auto simp: accepted_def split: sum.splits)
  show ?thesis
    unfolding parse_line_def r by (simp add: m p b)
qed

lemma parse_block:
  assumes "accepted cfg beamlines (fst blk)" and "\<forall>l \<in> set (snd blk). kv_line l"
  shows "parse_lines cfg beamlines st (block_lines blk) =
     Inr \<lparr>ps_files = ps_files st @ [build blk], ps_df = None\<rparr>"
proof -
  let ?st1 = "st\<lparr>ps_files := ps_files st @ [Datafile_init (fst blk)],
                 ps_df := Some (length (ps_files st))\<rparr>"
  let ?st2 = "?st1\<lparr>ps_files := (ps_files ?st1)
                 [length (ps_files st) := foldl store_line (ps_files ?st1 ! length (ps_files st)) (snd blk)]\<rparr>"
  have a: "parse_line cfg beamlines st (''<b>/'' @ fst blk @ ''</b>:'' @ [CHR 0x0A]) = Inr ?st1"
    using assms(1) by (rule parse_line_accepted)
  have b: "parse_lines cfg beamlines ?st1 (map (\<lambda>l. l @ [CHR 0x0A]) (snd blk)) = Inr ?st2"
    using assms(2) by (intro parse_lines_kv) simp_all
  have c: "parse_line cfg beamlines ?st2 [CHR 0x0A] = Inr (?st2\<lparr>ps_df := None\<rparr>)"
    by (simp add: parse_line_def rstrip_nl_blank is_marker_def)
  have d: "?st2\<lparr>ps_df := None\<rparr> = \<lparr>ps_files = ps_files st @ [build blk], ps_df = None\<rparr>"
    by (cases st) (simp add: build_def)
  have "parse_lines cfg beamlines st (block_lines blk) =
      (case parse_lines cfg beamlines ?st1 (map (\<lambda>l. l @ [CHR 0x0A]) (snd blk)) of
         Inl e \<Rightarrow> Inl e
       | Inr st' \<Rightarrow> parse_lines cfg beamlines st' [[CHR 0x0A]])"
    unfolding block_lines_def by (simp only: parse_lines.simps a sum.case parse_lines_append)
  also have "\<dots> = Inr (?st2\<lparr>ps_df := None\<rparr>)"
    by (simp only: b sum.case parse_lines.simps c)
  finally show ?thesis by (simp only: d)
qed

lemma parse_blocks:
  assumes "\<forall>blk \<in> set blocks. accepted cfg beamlines (fst blk) \<and> (\<forall>l \<in> set (snd blk). kv_line l)"
  shows "parse_lines cfg beamlines st (concat (map block_lines blocks)) =
     Inr \<lparr>ps_files = ps_files st @ map build blocks,
          ps_df = (if blocks = [] then ps_df st else None)\<rparr>"
  using assms
proof (induction blocks arbitrary: st)
  case Nil
  then show ?case by simp
next
  case (Cons blk blocks)
  let ?st = "\<lparr>ps_files = ps_files st @ [build blk], ps_df = None\<rparr>"
  from Cons.prems have "parse_lines cfg beamlines st (block_lines blk) = Inr ?st"
    by (intro parse_block) simp_all
  moreover have "parse_lines cfg beamlines ?st (concat (map block_lines blocks)) =
     Inr \<lparr>ps_files = ps_files ?st @ map build blocks,
          ps_df = (if blocks = [] then ps_df ?st else None)\<rparr>"
    using Cons.prems by (intro Cons.IH) simp
  ultimately show ?case
    by (simp add: parse_lines_append)
qed

text \<open>
  C2: a stream made of blocks, each a marker line for an accepted path, \<open>key : value\<close>
  lines and a blank line, is parsed without error into exactly one record per block, in
  the order of the blocks, each with the path of its marker; no record is left open. In
  the record of a block, a stored key \<open>k\<close> maps to the values, in line order, of the
  lines of the block whose key has the normal form \<open>k\<close> (all spaces and \<open>/\<close> removed),
  and a key is stored only when there is such a line. Lines with the key \<open>File Size\<close>
  are kept out of the map (they go to the size field, see C5).
\<close>

theorem C2_one_record_per_block:
  assumes "\<forall>blk \<in> set blocks.
      accepted cfg beamlines (fst blk) \<and> (\<forall>l \<in> set (snd blk). kv_line l)"
  shows "\<exists>fs. parse_lines cfg beamlines parse_init (concat (map block_lines blocks)) =
          Inr \<lparr>ps_files = fs, ps_df = None\<rparr>
      \<and> map df_name fs = map fst blocks
      \<and> (\<forall>i < length blocks. \<forall>k.
            map_of (df_data (fs ! i)) k =
              (if values_of k (snd (blocks ! i)) = [] then None
               else Some (values_of k (snd (blocks ! i)))))"
proof (intro exI conjI allI impI)
  show "parse_lines cfg beamlines parse_init (concat (map block_lines blocks)) =
          Inr \<lparr>ps_files = map build blocks, ps_df = None\<rparr>"
    using parse_blocks [OF assms, of parse_init] by (simp add: parse_init_def)
  show "map df_name (map build blocks) = map fst blocks"
    by (simp add: build_def foldl_store_name Datafile_init_def)
  show "map_of (df_data (map build blocks ! i)) k =
      (if values_of k (snd (blocks ! i)) = [] then None
       else Some (values_of k (snd (blocks ! i))))"
    if "i < length blocks" for i k
    using that foldl_store_data [of "Datafile_init (fst (blocks ! i))" k "[]" "snd (blocks ! i)"]
    by (simp add: build_def Datafile_init_def)
qed

text \<open>
  C2 at two Wombat blocks: the first with a key holding a space, a key on two lines and
  a \<open>File Size\<close> line, the second with no metadata line.
\<close>

theorem C2_witness:
  "\<exists>fs. parse_lines config [''Wombat''] parse_init
          (concat (map block_lines
             [(''Wombat/x/a.hdf'', [''sample name : RunA'', ''k : 1'', ''File Size : 7 bytes'', ''k : 2'']),
              (''Wombat/x/b.PDF'', [])])) =
          Inr \<lparr>ps_files = fs, ps_df = None\<rparr>
      \<and> map df_name fs = [''Wombat/x/a.hdf'', ''Wombat/x/b.PDF'']
      \<and> map_of (df_data (fs ! 0)) ''samplename'' = Some [''RunA'']
      \<and> map_of (df_data (fs ! 0)) ''k'' = Some [''1'', ''2'']
      \<and> map_of (df_data (fs ! 0)) ''FileSize'' = None
      \<and> map_of (df_data (fs ! 1)) ''k'' = None"
proof -
  let ?a = "[''sample name : RunA'', ''k : 1'', ''File Size : 7 bytes'', ''k : 2'']"
  let ?blocks = "[(''Wombat/x/a.hdf'', ?a), (''Wombat/x/b.PDF'', [])]"
  have h: "\<forall>blk \<in> set ?blocks.
      accepted config [''Wombat''] (fst blk) \<and> (\<forall>l \<in> set (snd blk). kv_line l)"
    by code_simp
  have v: "values_of ''samplename'' ?a = [''RunA'']" "values_of ''k'' ?a = [''1'', ''2'']"
    "values_of ''FileSize'' ?a = []" "values_of ''k'' [] = []"
    by code_simp+
  from C2_one_record_per_block [OF h] obtain fs where
    p: "parse_lines config [''Wombat''] parse_init (concat (map block_lines ?blocks)) =
          Inr \<lparr>ps_files = fs, ps_df = None\<rparr>"
    and n: "map df_name fs = map fst ?blocks"
    and d: "\<And>i k. i < length ?blocks \<Longrightarrow> map_of (df_data (fs ! i)) k =
              (if values_of k (snd (?blocks ! i)) = [] then None
               else Some (values_of k (snd (?blocks ! i))))"
    by blast
  from d [of 0 "''samplename''"] d [of 0 "''k''"] d [of 0 "''FileSize''"] d [of 1 "''k''"]
  have "map_of (df_data (fs ! 0)) ''samplename'' = Some [''RunA'']"
    "map_of (df_data (fs ! 0)) ''k'' = Some [''1'', ''2'']"
    "map_of (df_data (fs ! 0)) ''FileSize'' = None"
    "map_of (df_data (fs ! 1)) ''k'' = None"
    by (simp_all add: v)
  with p n show ?thesis by (intro exI [of _ fs]) simp
qed

section \<open>The dataset metadata record of a name (C1)\<close>














end
